theory Spec2Isabelle
  imports Complex_Main "HOL-Library.Word"
begin

section \<open>termvid: a video player for the terminal (main.py)\<close>

text \<open>
  The program decodes a video with OpenCV, turns every frame into coloured text and prints
  it at the cadence of the stream, then offers to save the render as a video. This theory
  embeds \<^verbatim>\<open>main.py\<close> function by function. What the program does to the outside
  world (terminal, clock, file system, ffmpeg) is recorded in an explicit state; what the
  outside world answers (decoded frames, clock readings, the result of a process) is an
  input of the model.
\<close>

subsection \<open>Python values\<close>

text \<open>The exceptions that the modelled code can raise.\<close>

datatype error =
    IndexError | ZeroDivisionError | OverflowError | EOFError
  | Cv2Error | OSError | FileNotFoundError | FileExistsError | KeyboardInterrupt

text \<open>
  A Python \<^verbatim>\<open>float\<close>. A finite double is modelled by the rational number it denotes and
  arithmetic on finite values is exact: rounding to the nearest double is not modelled.
\<close>

datatype pyfloat = Fin rat | PosInf | NegInf | NaN

text \<open>\<^verbatim>\<open>int(x)\<close> of a finite float: truncation towards zero.\<close>

definition py_int :: "rat \<Rightarrow> int" where
  "py_int q = (if 0 \<le> q then \<lfloor>q\<rfloor> else \<lceil>q\<rceil>)"

text \<open>\<^verbatim>\<open>s[i]\<close> on a sequence: a negative index counts from the end, anything outside raises.\<close>

definition getitem :: "'a list \<Rightarrow> int \<Rightarrow> error + 'a" where
  "getitem s i =
     (if 0 \<le> i \<and> i < int (length s) then Inr (s ! nat i)
      else if i < 0 \<and> - int (length s) \<le> i then Inr (s ! nat (i + int (length s)))
      else Inl IndexError)"

subsection \<open>Frames\<close>

text \<open>
  A decoded frame is a numpy array of shape (rows, cols, 3) of \<^verbatim>\<open>uint8\<close>: a list of rows of
  pixels, a pixel being its blue, green and red byte in OpenCV's order. A grayscale image
  has one byte per cell.
\<close>

type_synonym pixel = "8 word \<times> 8 word \<times> 8 word"
type_synonym frame = "pixel list list"
type_synonym grayimg = "8 word list list"

subsection \<open>The glyph ramp\<close>

definition ascii_chars :: string where
  "ascii_chars = '' .:-=+*#%@''"

text \<open>
  Line 32: \<^verbatim>\<open>int(brightness / 256 * len(ascii_chars))\<close>. \<^verbatim>\<open>brightness\<close> is a
  \<^verbatim>\<open>uint8\<close>, the division is numpy's true division into a double (under the value-based
  promotion of NumPy 1; the promotion rules of NumPy 2, which require the Python integer
  to fit the type of the other operand, are not modelled). Both the quotient by 256 (a
  power of two) and its product with the ramp's length are exact in double precision for
  every byte, so the rational computation below is the program's.
\<close>

definition glyph_index :: "8 word \<Rightarrow> int" where
  "glyph_index brightness =
     py_int (rat_of_nat (unat brightness) / 256 * rat_of_nat (length ascii_chars))"

definition glyph :: "8 word \<Rightarrow> error + char" where
  "glyph brightness = getitem ascii_chars (glyph_index brightness)"

subsection \<open>Text written to the terminal\<close>

text \<open>
  Output text is the byte string that reaches a UTF-8 terminal. \<^verbatim>\<open>str(n)\<close> of a
  non-negative integer is its decimal numeral; \<^verbatim>\<open>Style.RESET_ALL\<close> is colorama's
  \<^verbatim>\<open>ESC [ 0 m\<close>; the full block of line 43 is U+2588, three bytes in UTF-8.
\<close>

definition ESC :: char where
  "ESC = CHR 0x1B"

definition newline :: char where
  "newline = CHR 0x0A"

definition RESET_ALL :: string where
  "RESET_ALL = ESC # ''[0m''"

definition full_block :: string where
  "full_block = [CHR 0xE2, CHR 0x96, CHR 0x88]"

definition digit_char :: "nat \<Rightarrow> char" where
  "digit_char d = char_of (48 + d)"

fun str_nat :: "nat \<Rightarrow> string" where
  "str_nat n = (if n < 10 then [digit_char n] else str_nat (n div 10) @ [digit_char (n mod 10)])"

declare str_nat.simps [simp del]

text \<open>The colour prefix of the f-strings of lines 33 and 43, from the unpacked \<^verbatim>\<open>b, g, r\<close>.\<close>

definition color_prefix :: "pixel \<Rightarrow> string" where
  "color_prefix p =
     (case p of (b, g, r) \<Rightarrow>
        ESC # ''[38;2;'' @ str_nat (unat r) @ '';'' @ str_nat (unat g) @ '';''
          @ str_nat (unat b) @ ''m'')"

subsection \<open>OpenCV: resize and grayscale conversion\<close>

definition nrows :: "'a list list \<Rightarrow> nat" where
  "nrows img = length img"

definition ncols :: "'a list list \<Rightarrow> nat" where
  "ncols img = (case img of [] \<Rightarrow> 0 | row # _ \<Rightarrow> length row)"

text \<open>A numpy array is rectangular: every row has the number of columns of its shape.\<close>

definition rect :: "'a list list \<Rightarrow> bool" where
  "rect img = list_all (\<lambda>row. length row = ncols img) img"

text \<open>
  \<^verbatim>\<open>cv2.resize(src, (w, h))\<close> is a library function. As OpenCV documents and implements it,
  it raises on an empty source and on a target size with a width or height that is not
  positive (no scale factor is given), returns a copy of the source when the size does not
  change, and otherwise an image of \<open>h\<close> rows and \<open>w\<close> columns whose pixels it interpolates
  from the source. The interpolation is not part of this repository: \<open>interp src w h y x\<close>
  stands for the pixel OpenCV computes at row \<open>y\<close> and column \<open>x\<close>, and is a parameter.
\<close>

type_synonym interpolation = "frame \<Rightarrow> nat \<Rightarrow> nat \<Rightarrow> nat \<Rightarrow> nat \<Rightarrow> pixel"

definition cv2_resize :: "interpolation \<Rightarrow> frame \<Rightarrow> int \<Rightarrow> int \<Rightarrow> error + frame" where
  "cv2_resize interp src w h =
     (if nrows src = 0 \<or> ncols src = 0 then Inl Cv2Error
      else if w \<le> 0 \<or> h \<le> 0 then Inl Cv2Error
      else if nat w = ncols src \<and> nat h = nrows src then Inr src
      else Inr (map (\<lambda>y. map (\<lambda>x. interp src (nat w) (nat h) y x) [0..<nat w]) [0..<nat h]))"

text \<open>
  \<^verbatim>\<open>cv2.cvtColor(frame, cv2.COLOR_BGR2GRAY)\<close>, a library function: documented as
  Y = 0.299 R + 0.587 G + 0.114 B, and computed on bytes in 15-bit fixed point with
  rounding, (9798 R + 19235 G + 3735 B + 2^14) / 2^15.
\<close>

definition bgr2gray :: "pixel \<Rightarrow> 8 word" where
  "bgr2gray p =
     (case p of (b, g, r) \<Rightarrow>
        of_nat ((9798 * unat r + 19235 * unat g + 3735 * unat b + 16384) div 32768))"

definition cvtColor_BGR2GRAY :: "frame \<Rightarrow> grayimg" where
  "cvtColor_BGR2GRAY img = map (map bgr2gray) img"

subsection \<open>The rasterizers\<close>

text \<open>
  \<^verbatim>\<open>frame_to_ascii_colored\<close>, lines 23 to 35. The inner loop runs over
  \<^verbatim>\<open>range(gray.shape[1])\<close> and appends one coloured character per cell, the outer loop
  over \<^verbatim>\<open>range(gray.shape[0])\<close> and closes each row with the reset code and a line break.
  The loops carry \<^verbatim>\<open>output\<close>; the lookup in the ramp is the only statement that can raise.
\<close>

fun ascii_cols :: "frame \<Rightarrow> grayimg \<Rightarrow> nat \<Rightarrow> nat list \<Rightarrow> string \<Rightarrow> error + string" where
  "ascii_cols frame gray y [] output = Inr output"
| "ascii_cols frame gray y (x # xs) output =
     (let p = frame ! y ! x;
          brightness = gray ! y ! x
      in case glyph brightness of
           Inl e \<Rightarrow> Inl e
         | Inr c \<Rightarrow> ascii_cols frame gray y xs (output @ color_prefix p @ [c]))"

fun ascii_rows :: "frame \<Rightarrow> grayimg \<Rightarrow> nat list \<Rightarrow> string \<Rightarrow> error + string" where
  "ascii_rows frame gray [] output = Inr output"
| "ascii_rows frame gray (y # ys) output =
     (case ascii_cols frame gray y [0..<ncols gray] output of
        Inl e \<Rightarrow> Inl e
      | Inr out \<Rightarrow> ascii_rows frame gray ys (out @ RESET_ALL @ [newline]))"

definition frame_to_ascii_colored ::
    "interpolation \<Rightarrow> frame \<Rightarrow> int \<Rightarrow> int \<Rightarrow> error + string" where
  "frame_to_ascii_colored interp frame term_width term_height =
     (case cv2_resize interp frame term_width (term_height - 2) of
        Inl e \<Rightarrow> Inl e
      | Inr resized \<Rightarrow>
          (let gray = cvtColor_BGR2GRAY resized
           in ascii_rows resized gray [0..<nrows gray] []))"

text \<open>\<^verbatim>\<open>frame_to_colored_blocks\<close>, lines 37 to 45: the same loops, no statement can raise.\<close>

fun block_cols :: "frame \<Rightarrow> nat \<Rightarrow> nat list \<Rightarrow> string \<Rightarrow> string" where
  "block_cols frame y [] output = output"
| "block_cols frame y (x # xs) output =
     block_cols frame y xs (output @ color_prefix (frame ! y ! x) @ full_block)"

fun block_rows :: "frame \<Rightarrow> nat list \<Rightarrow> string \<Rightarrow> string" where
  "block_rows frame [] output = output"
| "block_rows frame (y # ys) output =
     block_rows frame ys (block_cols frame y [0..<ncols frame] output @ RESET_ALL @ [newline])"

definition frame_to_colored_blocks ::
    "interpolation \<Rightarrow> frame \<Rightarrow> int \<Rightarrow> int \<Rightarrow> error + string" where
  "frame_to_colored_blocks interp frame term_width term_height =
     (case cv2_resize interp frame term_width (term_height - 2) of
        Inl e \<Rightarrow> Inl e
      | Inr resized \<Rightarrow> Inr (block_rows resized [0..<nrows resized] []))"

text \<open>
  \<^verbatim>\<open>get_terminal_resolution\<close>, lines 19 to 21. The argument is what
  \<^verbatim>\<open>shutil.get_terminal_size\<close> answers, as (columns, lines).
\<close>

definition get_terminal_resolution :: "int \<times> int \<Rightarrow> int \<times> int" where
  "get_terminal_resolution sz = (max 1 (fst sz), max 1 (snd sz))"

subsection \<open>The render grid of the specification\<close>

text \<open>
  The specification describes the output through a Render Grid of Glyph Cells, a cell
  being a colour and a glyph, and a presenter that serializes it: each row is its cells'
  colour-prefixed glyphs, then the reset code and a line break, rows from top to bottom.
  These definitions follow the specification's words; the theorems compare the
  rasterizers of the source with them.
\<close>

type_synonym cell = "pixel \<times> string"

definition present_row :: "cell list \<Rightarrow> string" where
  "present_row row = concat (map (\<lambda>c. color_prefix (fst c) @ snd c) row) @ RESET_ALL @ [newline]"

definition present :: "cell list list \<Rightarrow> string" where
  "present grid = concat (map present_row grid)"

text \<open>ASCII mode: the ramp character at index floor(brightness / 256 * N), in the pixel's colour.\<close>

definition spec_ascii_cell :: "pixel \<Rightarrow> cell" where
  "spec_ascii_cell p =
     (p, [ascii_chars ! nat \<lfloor>rat_of_nat (unat (bgr2gray p)) / 256 * rat_of_nat (length ascii_chars)\<rfloor>])"

definition spec_block_cell :: "pixel \<Rightarrow> cell" where
  "spec_block_cell p = (p, full_block)"

definition ascii_grid :: "frame \<Rightarrow> cell list list" where
  "ascii_grid img = map (map spec_ascii_cell) img"

definition block_grid :: "frame \<Rightarrow> cell list list" where
  "block_grid img = map (map spec_block_cell) img"

subsection \<open>Float arithmetic of the playback schedule\<close>

text \<open>
  The operations that lines 63 to 66 and 81 to 85 apply to floats, with the special values
  of IEEE arithmetic as Python exposes them: every comparison with NaN is false, and
  \<^verbatim>\<open>1 / 0.0\<close> raises.
\<close>

definition float_le_zero :: "pyfloat \<Rightarrow> bool" where
  "float_le_zero x = (case x of Fin q \<Rightarrow> q \<le> 0 | NegInf \<Rightarrow> True | PosInf \<Rightarrow> False | NaN \<Rightarrow> False)"


definition np_isnan :: "pyfloat \<Rightarrow> bool" where
  "np_isnan x = (case x of NaN \<Rightarrow> True | _ \<Rightarrow> False)"






subsection \<open>The outside world\<close>

text \<open>
  What the program does is recorded as a trace of events, next to the files and
  directories that exist, the frames the open capture has still to deliver, and the number
  of clock readings taken so far.
\<close>

datatype event =
    Clear
  | Show string
  | Print string
  | Sleep rat
  | VideoCapture string
  | Release
  | Run "string list"
  | StartAudioThread string
  | Makedirs string
  | Imwrite string frame
  | Rmtree string
  | Remove string

text \<open>
  \<open>Clear\<close> is the escape sequence that \<^verbatim>\<open>clear_terminal\<close> prints, \<open>Show\<close> the
  \<^verbatim>\<open>print\<close> of a rendered frame in the playback loop, \<open>Print\<close> any other text
  printed; \<open>Run\<close> is a call of \<^verbatim>\<open>subprocess.run\<close> with its argument vector.
  \<open>StartAudioThread\<close> is the start of the daemon thread that plays the audio with
  ffplay; the thread runs beside the program and nothing it does is modelled.
\<close>

record world =
  files :: "string set"
  dirs :: "string set"
  cap :: "frame option list"
  ticks :: nat
  trace :: "event list"

text \<open>
  What the outside world answers. \<open>video\<close> is the sequence of results of
  \<^verbatim>\<open>cap.read()\<close> on a freshly opened capture (\<open>None\<close> is a read that returns
  \<^verbatim>\<open>ret = False\<close>; after the sequence every read fails), \<open>cap_frame_count\<close> the value of
  \<^verbatim>\<open>int(cap.get(cv2.CAP_PROP_FRAME_COUNT))\<close>, \<open>clock k\<close> the \<open>k\<close>-th reading of
  \<^verbatim>\<open>time.perf_counter()\<close>. A process started with \<^verbatim>\<open>subprocess.run\<close> either cannot
  be run to its end, and the call raises, or ends, having written its output file or not:
  the call does not look at the exit status. \<open>stdin\<close> is the line that
  \<^verbatim>\<open>input()\<close> reads (\<open>None\<close> at the end of the input), a str whose characters
  are code points below 256, one \<open>char\<close> each. \<open>str_float\<close> is Python's \<^verbatim>\<open>str\<close> of
  a float, which is not modelled.
\<close>

datatype proc_result = Raised error | Ran bool

record env =
  interpolate :: interpolation
  terminal_size :: "int \<times> int"
  cap_fps :: pyfloat
  cap_frame_count :: int
  video :: "frame option list"
  clock :: "nat \<Rightarrow> rat"
  max_sleep :: rat
  extract_result :: proc_result
  mux_result :: proc_result
  stdin :: "string option"
  str_float :: "pyfloat \<Rightarrow> string"

definition emit :: "event \<Rightarrow> world \<Rightarrow> world" where
  "emit e w = w\<lparr>trace := trace w @ [e]\<rparr>"


definition cv2_VideoCapture :: "env \<Rightarrow> string \<Rightarrow> world \<Rightarrow> world" where
  "cv2_VideoCapture e path w = emit (VideoCapture path) (w\<lparr>cap := video e\<rparr>)"

definition cap_read :: "world \<Rightarrow> frame option \<times> world" where
  "cap_read w = (case cap w of [] \<Rightarrow> (None, w) | r # rest \<Rightarrow> (r, w\<lparr>cap := rest\<rparr>))"

definition cap_release :: "world \<Rightarrow> world" where
  "cap_release w = emit Release (w\<lparr>cap := []\<rparr>)"



text \<open>\<^verbatim>\<open>os.remove\<close> raises when the file does not exist.\<close>

definition os_remove :: "string \<Rightarrow> world \<Rightarrow> error option \<times> world" where
  "os_remove path w =
     (if path \<in> files w then (None, emit (Remove path) (w\<lparr>files := files w - {path}\<rparr>))
      else (Some FileNotFoundError, w))"

text \<open>
  \<^verbatim>\<open>extract_audio\<close>, lines 47 to 53: one run of ffmpeg, which writes the audio file or
  not.
\<close>

definition extract_audio :: "env \<Rightarrow> string \<Rightarrow> string \<Rightarrow> world \<Rightarrow> (error + string) \<times> world" where
  "extract_audio e input_path output_audio w =
     (let w1 = emit (Run [''ffmpeg'', ''-y'', ''-i'', input_path, ''-vn'', ''-acodec'', ''aac'',
                          ''-filter:a'', ''volume=0.5'', output_audio]) w
      in case extract_result e of
           Raised err \<Rightarrow> (Inl err, w1)
         | Ran written \<Rightarrow>
             (Inr output_audio,
              if written then w1\<lparr>files := insert output_audio (files w1)\<rparr> else w1))"

subsection \<open>Playback\<close>

text \<open>
  The loop of \<^verbatim>\<open>play_video\<close>, lines 76 to 92, over the indices of
  \<^verbatim>\<open>range(frame_count)\<close> that remain. A read that fails leaves the loop
  (\<^verbatim>\<open>break\<close>). The result is the exception that ended the loop, if any.
\<close>

definition render :: "env \<Rightarrow> bool \<Rightarrow> frame \<Rightarrow> int \<Rightarrow> int \<Rightarrow> error + string" where
  "render e use_ascii frame term_width term_height =
     (if use_ascii then frame_to_ascii_colored (interpolate e) frame term_width term_height
      else frame_to_colored_blocks (interpolate e) frame term_width term_height)"



subsection \<open>The playback clock of the specification\<close>








subsection \<open>The save step\<close>

text \<open>\<^verbatim>\<open>str.strip\<close> and \<^verbatim>\<open>str.lower\<close> on code points below 256.\<close>

definition py_isspace :: "char \<Rightarrow> bool" where
  "py_isspace c =
     (let n = (of_char c :: nat)
      in (9 \<le> n \<and> n \<le> 13) \<or> (28 \<le> n \<and> n \<le> 32) \<or> n = 133 \<or> n = 160)"

definition py_strip :: "string \<Rightarrow> string" where
  "py_strip s = rev (dropWhile py_isspace (rev (dropWhile py_isspace s)))"

definition py_lower_char :: "char \<Rightarrow> char" where
  "py_lower_char c =
     (let n = (of_char c :: nat)
      in if (65 \<le> n \<and> n \<le> 90) \<or> (192 \<le> n \<and> n \<le> 222 \<and> n \<noteq> 215) then char_of (n + 32)
         else c)"

definition py_lower :: "string \<Rightarrow> string" where
  "py_lower s = map py_lower_char s"

text \<open>\<^verbatim>\<open>os.path.basename\<close>, \<^verbatim>\<open>os.path.dirname\<close> and \<^verbatim>\<open>os.path.join\<close> of posixpath.\<close>

definition basename :: "string \<Rightarrow> string" where
  "basename p = rev (takeWhile (\<lambda>c. c \<noteq> CHR ''/'') (rev p))"

definition dirname :: "string \<Rightarrow> string" where
  "dirname p =
     (let head = rev (dropWhile (\<lambda>c. c \<noteq> CHR ''/'') (rev p))
      in if head \<noteq> [] \<and> \<not> list_all (\<lambda>c. c = CHR ''/'') head
         then rev (dropWhile (\<lambda>c. c = CHR ''/'') (rev head))
         else head)"

definition path_join :: "string \<Rightarrow> string \<Rightarrow> string" where
  "path_join a b =
     (if take 1 b = ''/'' then b
      else if a = [] \<or> last a = CHR ''/'' then a @ b
      else a @ ''/'' @ b)"

text \<open>The format \<^verbatim>\<open>{i:04}\<close>: decimal, padded with zeros to four digits.\<close>

definition zfill4 :: "nat \<Rightarrow> string" where
  "zfill4 i = replicate (4 - length (str_nat i)) CHR ''0'' @ str_nat i"

definition save_prompt :: string where
  "save_prompt = [newline, CHR 0xF0, CHR 0x9F, CHR 0x92, CHR 0xBE]
     @ '' Would you like to save this terminal render as a video? (y/n): ''"

definition saved_message :: "string \<Rightarrow> string" where
  "saved_message output_path =
     [newline, CHR 0xE2, CHR 0x9C, CHR 0x85] @ '' Saved as '' @ output_path @ [newline]"

text \<open>
  Lines 120 to 129: in ASCII mode the canvas starts as zeros of the frame's shape; for
  every cell the loops look up the ramp character, which they never use, and store the
  frame's pixel in the canvas.
\<close>

definition zeros_like :: "frame \<Rightarrow> frame" where
  "zeros_like img = map (map (\<lambda>p. (0, 0, 0))) img"

fun canvas_cols :: "frame \<Rightarrow> grayimg \<Rightarrow> nat \<Rightarrow> nat list \<Rightarrow> frame \<Rightarrow> error + frame" where
  "canvas_cols frame gray y [] canvas = Inr canvas"
| "canvas_cols frame gray y (x # xs) canvas =
     (let brightness = gray ! y ! x
      in case glyph brightness of
           Inl err \<Rightarrow> Inl err
         | Inr char \<Rightarrow>
             (let p = frame ! y ! x
              in canvas_cols frame gray y xs (canvas[y := (canvas ! y)[x := p]])))"

fun canvas_rows :: "frame \<Rightarrow> grayimg \<Rightarrow> nat list \<Rightarrow> frame \<Rightarrow> error + frame" where
  "canvas_rows frame gray [] canvas = Inr canvas"
| "canvas_rows frame gray (y # ys) canvas =
     (case canvas_cols frame gray y [0..<ncols gray] canvas of
        Inl err \<Rightarrow> Inl err
      | Inr canvas' \<Rightarrow> canvas_rows frame gray ys canvas')"

definition ascii_canvas :: "frame \<Rightarrow> error + frame" where
  "ascii_canvas frame =
     (let gray = cvtColor_BGR2GRAY frame;
          canvas = zeros_like frame
      in canvas_rows frame gray [0..<nrows gray] canvas)"

text \<open>The assignment of line 128, \<^verbatim>\<open>canvas[y, x] = (b, g, r)\<close>.\<close>

definition store_pixel :: "frame \<Rightarrow> nat \<Rightarrow> frame \<Rightarrow> nat \<Rightarrow> frame" where
  "store_pixel frame y canvas x = canvas[y := (canvas ! y)[x := frame ! y ! x]]"

text \<open>The loop of lines 115 to 130, which collects the frames to save.\<close>

fun collect_frames ::
    "env \<Rightarrow> bool \<Rightarrow> int \<Rightarrow> int \<Rightarrow> nat list \<Rightarrow> frame list \<Rightarrow> world \<Rightarrow> (error + frame list) \<times> world" where
  "collect_frames e use_ascii term_width term_height [] frames w = (Inr frames, w)"
| "collect_frames e use_ascii term_width term_height (i # rest) frames w =
     (case cap_read w of
        (None, w1) \<Rightarrow> (Inr frames, w1)
      | (Some frame, w1) \<Rightarrow>
          (case cv2_resize (interpolate e) frame term_width (term_height - 2) of
             Inl err \<Rightarrow> (Inl err, w1)
           | Inr resized \<Rightarrow>
               (case (if use_ascii then ascii_canvas resized else Inr resized) of
                  Inl err \<Rightarrow> (Inl err, w1)
                | Inr canvas \<Rightarrow>
                    collect_frames e use_ascii term_width term_height rest (frames @ [canvas]) w1)))"

text \<open>
  The file system calls of lines 133 to 155. \<^verbatim>\<open>os.makedirs(d, exist_ok=True)\<close> raises
  when \<open>d\<close> is a file; \<^verbatim>\<open>shutil.rmtree(d)\<close> raises when \<open>d\<close> is not a directory, and
  removes it with everything under it.
\<close>

definition os_makedirs :: "string \<Rightarrow> world \<Rightarrow> error option \<times> world" where
  "os_makedirs path w =
     (if path \<in> files w then (Some FileExistsError, w)
      else (None, emit (Makedirs path) (w\<lparr>dirs := insert path (dirs w)\<rparr>)))"

definition cv2_imwrite :: "string \<Rightarrow> frame \<Rightarrow> world \<Rightarrow> world" where
  "cv2_imwrite path img w = emit (Imwrite path img) (w\<lparr>files := insert path (files w)\<rparr>)"

fun write_frames :: "string \<Rightarrow> nat \<Rightarrow> frame list \<Rightarrow> world \<Rightarrow> world" where
  "write_frames temp_frames_dir i [] w = w"
| "write_frames temp_frames_dir i (f # fs) w =
     write_frames temp_frames_dir (Suc i) fs
       (cv2_imwrite (temp_frames_dir @ ''/frame'' @ zfill4 i @ ''.png'') f w)"

definition under :: "string \<Rightarrow> string \<Rightarrow> bool" where
  "under d p = (take (Suc (length d)) p = d @ ''/'')"

definition shutil_rmtree :: "string \<Rightarrow> world \<Rightarrow> error option \<times> world" where
  "shutil_rmtree d w =
     (if d \<in> dirs w
      then (None, emit (Rmtree d)
                    (w\<lparr>dirs := Set.filter (\<lambda>x. x \<noteq> d \<and> \<not> under d x) (dirs w),
                       files := Set.filter (\<lambda>p. \<not> under d p) (files w)\<rparr>))
      else (Some FileNotFoundError, w))"

text \<open>Lines 140 to 152: the run of ffmpeg that encodes the images and the audio.\<close>

definition run_mux ::
    "env \<Rightarrow> string \<Rightarrow> string \<Rightarrow> string \<Rightarrow> string \<Rightarrow> world \<Rightarrow> error option \<times> world" where
  "run_mux e fps_text temp_frames_dir temp_audio output_path w =
     (let w1 = emit (Run [''ffmpeg'', ''-y'', ''-r'', fps_text,
                          ''-i'', temp_frames_dir @ ''/frame%04d.png'', ''-i'', temp_audio,
                          ''-vf'', ''pad=ceil(iw/2)*2:ceil(ih/2)*2'', ''-c:v'', ''libx264'',
                          ''-pix_fmt'', ''yuv420p'', ''-c:a'', ''aac'',
                          ''-movflags'', ''+faststart'', ''-shortest'', output_path]) w
      in case mux_result e of
           Raised err \<Rightarrow> (Some err, w1)
         | Ran written \<Rightarrow>
             (None, if written then w1\<lparr>files := insert output_path (files w1)\<rparr> else w1))"

text \<open>Lines 140 to 156: the encoder, then the removal of the temporary files.\<close>

definition encode_and_cleanup ::
    "env \<Rightarrow> string \<Rightarrow> string \<Rightarrow> string \<Rightarrow> string \<Rightarrow> world \<Rightarrow> error option \<times> world" where
  "encode_and_cleanup e fps_text temp_frames_dir temp_audio output_path w =
     (case run_mux e fps_text temp_frames_dir temp_audio output_path w of
        (Some err, w1) \<Rightarrow> (Some err, w1)
      | (None, w1) \<Rightarrow>
          (case shutil_rmtree temp_frames_dir w1 of
             (Some err, w2) \<Rightarrow> (Some err, w2)
           | (None, w2) \<Rightarrow>
               (case os_remove temp_audio w2 of
                  (Some err, w3) \<Rightarrow> (Some err, w3)
                | (None, w3) \<Rightarrow> (None, emit (Print (saved_message output_path)) w3))))"

text \<open>\<^verbatim>\<open>save_as_video\<close>, lines 98 to 156.\<close>

definition save_as_video :: "env \<Rightarrow> string \<Rightarrow> bool \<Rightarrow> world \<Rightarrow> error option \<times> world" where
  "save_as_video e original_path use_ascii w =
     (let w1 = emit (Print save_prompt) w
      in case stdin e of
           None \<Rightarrow> (Some EOFError, w1)
         | Some line \<Rightarrow>
             (let choice = py_lower (py_strip line)
              in if choice \<noteq> ''y'' then (None, w1)
                 else
                   (let output_name = ''terminal+'' @ basename original_path;
                        output_path = path_join (dirname original_path) output_name;
                        (term_width, term_height) = get_terminal_resolution (terminal_size e);
                        w2 = cv2_VideoCapture e original_path w1;
                        fps_text = (if float_le_zero (cap_fps e) \<or> np_isnan (cap_fps e)
                                    then str_nat 30 else str_float e (cap_fps e))
                    in case collect_frames e use_ascii term_width term_height
                              [0..<nat (cap_frame_count e)] [] w2 of
                         (Inl err, w3) \<Rightarrow> (Some err, w3)
                       | (Inr frames, w3) \<Rightarrow>
                           (let w4 = cap_release w3;
                                temp_frames_dir = ''tempframes''
                            in case os_makedirs temp_frames_dir w4 of
                                 (Some err, w5) \<Rightarrow> (Some err, w5)
                               | (None, w5) \<Rightarrow>
                                   (let w6 = write_frames temp_frames_dir 0 frames w5
                                    in case extract_audio e original_path ''temp_audio_output.aac'' w6 of
                                         (Inl err, w7) \<Rightarrow> (Some err, w7)
                                       | (Inr temp_audio, w7) \<Rightarrow>
                                           encode_and_cleanup e fps_text temp_frames_dir
                                             temp_audio output_path w7)))))"

subsection \<open>A sample run\<close>

text \<open>
  A video of three reads, the second of which fails, on a terminal of one column and three
  lines, with a clock that advances by a hundredth of a second between readings.
\<close>

definition red_frame :: frame where
  "red_frame = [[(0, 0, 255)]]"

definition black_frame :: frame where
  "black_frame = [[(0, 0, 0)]]"

definition demo_env :: env where
  "demo_env = \<lparr>interpolate = (\<lambda>src w h y x. (0, 0, 0)), terminal_size = (1, 3),
     cap_fps = Fin 30, cap_frame_count = 3,
     video = [Some red_frame, None, Some black_frame],
     clock = (\<lambda>k. rat_of_nat k / 100), max_sleep = 1000,
     extract_result = Ran True, mux_result = Ran True, stdin = Some ''n'',
     str_float = (\<lambda>x. ''30.0'')\<rparr>"

definition empty_world :: world where
  "empty_world = \<lparr>files = {}, dirs = {}, cap = [], ticks = 0, trace = []\<rparr>"


text \<open>The same run with the answer \<open>Y\<close> at the prompt, and with an encoder that is interrupted.\<close>

definition save_env :: env where
  "save_env = demo_env\<lparr>stdin := Some '' Y ''\<rparr>"

definition yes_env :: env where
  "yes_env = save_env\<lparr>mux_result := Raised KeyboardInterrupt\<rparr>"

section \<open>Properties\<close>

subsection \<open>The glyph index\<close>

lemma length_ascii_chars: "length ascii_chars = 10"
  by (simp add: ascii_chars_def)

lemma unat_byte_le: "unat (b :: 8 word) \<le> 255"
proof -
  have "unat b < 2 ^ LENGTH(8)"
    by (rule unsigned_less)
  then show ?thesis by simp
qed

lemma py_int_scaled: "py_int (rat_of_nat n / 256 * 10) = int (n * 10 div 256)"
proof -
  have nonneg: "0 \<le> rat_of_nat n / 256 * 10"
    by simp
  have "rat_of_nat n / 256 * 10 = rat_of_nat (n * 10) / rat_of_nat 256"
    by simp
  also have "\<lfloor>\<dots>\<rfloor> = int (n * 10 div 256)"
    by (rule floor_divide_of_nat_eq)
  finally have "\<lfloor>rat_of_nat n / 256 * 10\<rfloor> = int (n * 10 div 256)" .
  with nonneg show ?thesis
    unfolding py_int_def by simp
qed

lemma glyph_index_eq: "glyph_index b = int (unat b * 10 div 256)"
  unfolding glyph_index_def length_ascii_chars
  using py_int_scaled [of "unat b"] by simp

lemma glyph_index_bounds: "0 \<le> glyph_index b \<and> glyph_index b < 10"
proof -
  have "unat b * 10 div 256 < 10"
    using unat_byte_le [of b] by simp
  then show ?thesis
    by (simp add: glyph_index_eq)
qed

text \<open>
  C1. For every brightness byte (0 to 255) and the ramp of 10 characters, the index
  \<^verbatim>\<open>int(b / 256 * N)\<close> lies in 0..N-1, so the lookup \<^verbatim>\<open>ascii_chars[index]\<close> returns a
  character of the ramp and never raises; at the maximum brightness 255 the index is 9.
\<close>

theorem glyph_index_in_range:
  "length ascii_chars = 10
   \<and> 0 \<le> glyph_index b \<and> glyph_index b < int (length ascii_chars)
   \<and> glyph b = Inr (ascii_chars ! nat (glyph_index b))
   \<and> glyph_index 255 = 9"
proof -
  have "glyph_index 255 = 9"
    by (simp add: glyph_index_eq)
  then show ?thesis
    using glyph_index_bounds [of b]
    by (simp add: glyph_def getitem_def length_ascii_chars)
qed

subsection \<open>The rasterizers and the render grid\<close>

lemma glyph_ok: "glyph b = Inr (ascii_chars ! nat (glyph_index b))"
  using glyph_index_bounds [of b] by (simp add: glyph_def getitem_def length_ascii_chars)

lemma ascii_cols_eq:
  "ascii_cols frame gray y xs out =
     Inr (out @ concat (map (\<lambda>x. color_prefix (frame ! y ! x)
                                  @ [ascii_chars ! nat (glyph_index (gray ! y ! x))]) xs))"
  by (induction xs arbitrary: out) (simp_all add: glyph_ok)

lemma ascii_rows_eq:
  "ascii_rows frame gray ys out =
     Inr (out @ concat (map (\<lambda>y. concat (map (\<lambda>x. color_prefix (frame ! y ! x)
                                  @ [ascii_chars ! nat (glyph_index (gray ! y ! x))]) [0..<ncols gray])
                               @ RESET_ALL @ [newline]) ys))"
  by (induction ys arbitrary: out) (simp_all add: ascii_cols_eq)

lemma block_cols_eq:
  "block_cols frame y xs out =
     out @ concat (map (\<lambda>x. color_prefix (frame ! y ! x) @ full_block) xs)"
  by (induction xs arbitrary: out) simp_all

lemma block_rows_eq:
  "block_rows frame ys out =
     out @ concat (map (\<lambda>y. concat (map (\<lambda>x. color_prefix (frame ! y ! x) @ full_block) [0..<ncols frame])
                               @ RESET_ALL @ [newline]) ys)"
  by (induction ys arbitrary: out) (simp_all add: block_cols_eq)

lemma rect_row_length: "rect img \<Longrightarrow> y < length img \<Longrightarrow> length (img ! y) = ncols img"
  by (simp add: rect_def list_all_length)

lemma map_rows_nth: "map (\<lambda>y. f (img ! y)) [0..<length img] = map f img"
proof -
  have "map f (map ((!) img) [0..<length img]) = map f img"
    by (simp only: map_nth)
  then show ?thesis
    by (simp only: map_map comp_def)
qed

lemma map_range_nth: "length row = n \<Longrightarrow> map (\<lambda>x. f (row ! x)) [0..<n] = map f row"
  using map_rows_nth [of f row] by simp

lemma ncols_map: "ncols (map (map f) img) = ncols img"
  by (cases img) (simp_all add: ncols_def)

lemma spec_ascii_cell_eq: "spec_ascii_cell p = (p, [ascii_chars ! nat (glyph_index (bgr2gray p))])"
  using glyph_index_bounds [of "bgr2gray p"]
  by (simp add: spec_ascii_cell_def glyph_index_def py_int_def)

lemma ascii_rows_present:
  assumes "rect img"
  shows "ascii_rows img (cvtColor_BGR2GRAY img) [0..<nrows (cvtColor_BGR2GRAY img)] [] =
         Inr (present (ascii_grid img))"
proof -
  let ?g = "cvtColor_BGR2GRAY img"
  have row: "concat (map (\<lambda>x. color_prefix (img ! y ! x)
                 @ [ascii_chars ! nat (glyph_index (?g ! y ! x))]) [0..<ncols ?g]) @ RESET_ALL @ [newline]
             = present_row (map spec_ascii_cell (img ! y))" if "y < length img" for y
  proof -
    have len: "length (img ! y) = ncols img"
      using assms that by (rule rect_row_length)
    have "map (\<lambda>x. color_prefix (img ! y ! x) @ [ascii_chars ! nat (glyph_index (?g ! y ! x))]) [0..<ncols img]
        = map (\<lambda>x. (\<lambda>p. color_prefix p @ [ascii_chars ! nat (glyph_index (bgr2gray p))]) (img ! y ! x)) [0..<ncols img]"
      using that len by (simp add: cvtColor_BGR2GRAY_def)
    also have "\<dots> = map (\<lambda>p. color_prefix p @ [ascii_chars ! nat (glyph_index (bgr2gray p))]) (img ! y)"
      using len by (rule map_range_nth)
    finally show ?thesis
      by (simp add: present_row_def cvtColor_BGR2GRAY_def ncols_map spec_ascii_cell_eq comp_def)
  qed
  have "map (\<lambda>y. concat (map (\<lambda>x. color_prefix (img ! y ! x)
                 @ [ascii_chars ! nat (glyph_index (?g ! y ! x))]) [0..<ncols ?g]) @ RESET_ALL @ [newline]) [0..<length img]
      = map (\<lambda>y. (\<lambda>r. present_row (map spec_ascii_cell r)) (img ! y)) [0..<length img]"
    using row by simp
  also have "\<dots> = map (\<lambda>r. present_row (map spec_ascii_cell r)) img"
    by (rule map_rows_nth)
  finally show ?thesis
    by (simp add: ascii_rows_eq nrows_def cvtColor_BGR2GRAY_def present_def ascii_grid_def comp_def)
qed

lemma block_rows_present:
  assumes "rect img"
  shows "block_rows img [0..<nrows img] [] = present (block_grid img)"
proof -
  have row: "concat (map (\<lambda>x. color_prefix (img ! y ! x) @ full_block) [0..<ncols img]) @ RESET_ALL @ [newline]
             = present_row (map spec_block_cell (img ! y))" if "y < length img" for y
  proof -
    have len: "length (img ! y) = ncols img"
      using assms that by (rule rect_row_length)
    have "map (\<lambda>x. (\<lambda>p. color_prefix p @ full_block) (img ! y ! x)) [0..<ncols img]
        = map (\<lambda>p. color_prefix p @ full_block) (img ! y)"
      using len by (rule map_range_nth)
    then show ?thesis
      by (simp add: present_row_def spec_block_cell_def comp_def)
  qed
  have "map (\<lambda>y. concat (map (\<lambda>x. color_prefix (img ! y ! x) @ full_block) [0..<ncols img]) @ RESET_ALL @ [newline]) [0..<length img]
      = map (\<lambda>y. (\<lambda>r. present_row (map spec_block_cell r)) (img ! y)) [0..<length img]"
    using row by simp
  also have "\<dots> = map (\<lambda>r. present_row (map spec_block_cell r)) img"
    by (rule map_rows_nth)
  finally show ?thesis
    by (simp add: block_rows_eq nrows_def present_def block_grid_def comp_def)
qed

lemma str_nat_255: "str_nat 255 = ''255''"
  by code_simp

lemma str_nat_0: "str_nat 0 = ''0''"
  by code_simp

lemma resize_shape:
  assumes "rect src" "0 < nrows src" "0 < ncols src" "1 \<le> w" "1 \<le> h"
  shows "\<exists>fr. cv2_resize interp src w h = Inr fr \<and> rect fr \<and> length fr = nat h
            \<and> list_all (\<lambda>row. length row = nat w) fr"
proof (cases "nat w = ncols src \<and> nat h = nrows src")
  case True
  with assms show ?thesis
    by (simp add: cv2_resize_def nrows_def rect_def)
next
  case False
  let ?fr = "map (\<lambda>y. map (\<lambda>x. interp src (nat w) (nat h) y x) [0..<nat w]) [0..<nat h]"
  have "cv2_resize interp src w h = Inr ?fr"
    using assms False by (auto simp: cv2_resize_def)
  moreover have "list_all (\<lambda>row. length row = nat w) ?fr"
    by (simp add: list_all_iff)
  moreover have "ncols ?fr = nat w"
  proof -
    have "0 < nat h" using assms(5) by simp
    then have "[0..<nat h] = 0 # [Suc 0..<nat h]"
      by (rule upt_conv_Cons)
    then show ?thesis by (simp add: ncols_def)
  qed
  ultimately show ?thesis
    by (simp add: rect_def)
qed

lemma resize_fails: "h \<le> 0 \<Longrightarrow> cv2_resize interp src w h = Inl Cv2Error"
  by (simp add: cv2_resize_def)

lemma resize_ok_positive: "cv2_resize interp src w h = Inr fr \<Longrightarrow> 1 \<le> w \<and> 1 \<le> h"
  by (auto simp: cv2_resize_def split: if_splits)

text \<open>
  C6. For every rectangular source frame with at least one row and one column, whatever its
  size, and a sampled terminal of width at least 1 and height at least 3 (so that the
  requested grid, the width by the height minus the 2-row margin, has at least one row and
  one column), both rasterizers return the presentation of a grid of exactly
  \<open>term_height - 2\<close> rows of \<open>term_width\<close> glyph cells each: the cells of the resized frame.
\<close>

theorem raster_grid_dimensions:
  assumes "rect frame" "0 < nrows frame" "0 < ncols frame"
    and "1 \<le> term_width" "1 \<le> term_height - 2"
  shows "\<exists>resized. cv2_resize interp frame term_width (term_height - 2) = Inr resized
     \<and> frame_to_ascii_colored interp frame term_width term_height = Inr (present (ascii_grid resized))
     \<and> frame_to_colored_blocks interp frame term_width term_height = Inr (present (block_grid resized))
     \<and> length (ascii_grid resized) = nat (term_height - 2)
     \<and> list_all (\<lambda>row. length row = nat term_width) (ascii_grid resized)
     \<and> length (block_grid resized) = nat (term_height - 2)
     \<and> list_all (\<lambda>row. length row = nat term_width) (block_grid resized)"
proof -
  obtain fr where fr: "cv2_resize interp frame term_width (term_height - 2) = Inr fr"
      "rect fr" "length fr = nat (term_height - 2)" "list_all (\<lambda>row. length row = nat term_width) fr"
    using resize_shape [OF assms] by blast
  have a: "frame_to_ascii_colored interp frame term_width term_height = Inr (present (ascii_grid fr))"
    using fr(1) ascii_rows_present [OF fr(2)] by (simp add: frame_to_ascii_colored_def)
  have b: "frame_to_colored_blocks interp frame term_width term_height = Inr (present (block_grid fr))"
    using fr(1) block_rows_present [OF fr(2)] by (simp add: frame_to_colored_blocks_def)
  have c: "list_all (\<lambda>row. length row = nat term_width) (ascii_grid fr)"
    "list_all (\<lambda>row. length row = nat term_width) (block_grid fr)"
    using fr(4) by (simp_all add: ascii_grid_def block_grid_def list_all_iff)
  show ?thesis
    using fr(1,3) a b c by (simp add: ascii_grid_def block_grid_def)
qed

theorem raster_grid_dimensions_witness:
  "\<exists>resized. cv2_resize (\<lambda>src w h y x. (7, 8, 9)) [[(0, 0, 255), (0, 0, 0)]] 3 (4 - 2) = Inr resized
     \<and> frame_to_ascii_colored (\<lambda>src w h y x. (7, 8, 9)) [[(0, 0, 255), (0, 0, 0)]] 3 4 = Inr (present (ascii_grid resized))
     \<and> frame_to_colored_blocks (\<lambda>src w h y x. (7, 8, 9)) [[(0, 0, 255), (0, 0, 0)]] 3 4 = Inr (present (block_grid resized))
     \<and> length (ascii_grid resized) = nat (4 - 2)
     \<and> list_all (\<lambda>row. length row = nat 3) (ascii_grid resized)
     \<and> length (block_grid resized) = nat (4 - 2)
     \<and> list_all (\<lambda>row. length row = nat 3) (block_grid resized)"
  using raster_grid_dimensions [of "[[(0, 0, 255), (0, 0, 0)]]" 3 4 "\<lambda>src w h y x. (7, 8, 9)"]
  by (simp add: rect_def nrows_def ncols_def)

text \<open>
  C7. In ASCII mode one step of the inner loop appends, for the pixel at (y, x), its colour
  prefix built from the pixel's own red, green and blue, and the ramp character at index
  floor(brightness / 256 * N). For the 2x1 source with pixels (255,0,0) and (0,0,0) in RGB
  (stored as BGR) and a terminal of 2 columns and 3 lines, the output is a red \<open>:\<close>
  (brightness 76, index 2) and a black space (brightness 0, index 0), then the reset code
  and a line break.
\<close>

theorem ascii_glyph_mapping:
  "ascii_cols frame gray y [x] out =
     Inr (out @ color_prefix (frame ! y ! x)
            @ [ascii_chars ! nat \<lfloor>rat_of_nat (unat (gray ! y ! x)) / 256 * rat_of_nat (length ascii_chars)\<rfloor>])
   \<and> color_prefix (b, g, r) =
       ESC # ''[38;2;'' @ str_nat (unat r) @ '';'' @ str_nat (unat g) @ '';'' @ str_nat (unat b) @ ''m''
   \<and> frame_to_ascii_colored interp [[(0, 0, 255), (0, 0, 0)]] 2 3 =
       Inr (ESC # ''[38;2;255;0;0m:'' @ ESC # ''[38;2;0;0;0m '' @ ESC # ''[0m'' @ [newline])
   \<and> bgr2gray (0, 0, 255) = 76 \<and> glyph_index 76 = 2 \<and> ascii_chars ! 2 = CHR '':''
   \<and> bgr2gray (0, 0, 0) = 0 \<and> glyph_index 0 = 0 \<and> ascii_chars ! 0 = CHR '' ''"
proof -
  have cell: "ascii_cols frame gray y [x] out =
     Inr (out @ color_prefix (frame ! y ! x)
            @ [ascii_chars ! nat \<lfloor>rat_of_nat (unat (gray ! y ! x)) / 256 * rat_of_nat (length ascii_chars)\<rfloor>])"
    using glyph_index_bounds [of "gray ! y ! x"]
    by (simp add: ascii_cols_eq glyph_index_def py_int_def)
  have g1: "bgr2gray (0, 0, 255) = 76" and g0: "bgr2gray (0, 0, 0) = 0"
    by (simp_all add: bgr2gray_def)
  have i1: "glyph_index 76 = 2" and i0: "glyph_index 0 = 0"
    by (simp_all add: glyph_index_eq)
  have rs: "cv2_resize interp [[(0, 0, 255), (0, 0, 0)]] 2 (3 - 2) = Inr [[(0, 0, 255), (0, 0, 0)]]"
    by (simp add: cv2_resize_def nrows_def ncols_def)
  have scen: "frame_to_ascii_colored interp [[(0, 0, 255), (0, 0, 0)]] 2 3 =
       Inr (ESC # ''[38;2;255;0;0m:'' @ ESC # ''[38;2;0;0;0m '' @ ESC # ''[0m'' @ [newline])"
    unfolding frame_to_ascii_colored_def rs
    by (simp add: ascii_rows_eq cvtColor_BGR2GRAY_def nrows_def ncols_def g1 g0 i1 i0
        color_prefix_def str_nat_255 str_nat_0 ascii_chars_def RESET_ALL_def upt_conv_Cons)
  show ?thesis
    using cell scen g1 g0 i1 i0 by (simp add: color_prefix_def ascii_chars_def)
qed

text \<open>
  C9. The sampled resolution is clamped to at least 1 in both directions, and the heights 1
  and 2 are kept as they are. With a sampled height of at most 2 both rasterizers raise
  OpenCV's error (the resize target height is zero or negative) instead of returning text;
  so a rasterizer that returns text was given a height of at least 3.
\<close>

theorem short_terminal_fails:
  "1 \<le> fst (get_terminal_resolution sz) \<and> 1 \<le> snd (get_terminal_resolution sz)
   \<and> get_terminal_resolution (80, 1) = (80, 1) \<and> get_terminal_resolution (80, 2) = (80, 2)
   \<and> (term_height \<le> 2 \<longrightarrow>
        frame_to_ascii_colored interp frame term_width term_height = Inl Cv2Error
      \<and> frame_to_colored_blocks interp frame term_width term_height = Inl Cv2Error)
   \<and> (frame_to_ascii_colored interp frame term_width term_height = Inr out \<longrightarrow> 3 \<le> term_height)
   \<and> (frame_to_colored_blocks interp frame term_width term_height = Inr out \<longrightarrow> 3 \<le> term_height)"
proof -
  have fail: "frame_to_ascii_colored interp frame term_width term_height = Inl Cv2Error
      \<and> frame_to_colored_blocks interp frame term_width term_height = Inl Cv2Error"
    if "term_height \<le> 2"
    using that resize_fails [of "term_height - 2" interp frame term_width]
    by (simp add: frame_to_ascii_colored_def frame_to_colored_blocks_def)
  have ok: "3 \<le> term_height"
    if "frame_to_ascii_colored interp frame term_width term_height = Inr out
        \<or> frame_to_colored_blocks interp frame term_width term_height = Inr out"
  proof (rule ccontr)
    assume "\<not> 3 \<le> term_height"
    then have "term_height \<le> 2" by simp
    from fail [OF this] that show False by simp
  qed
  show ?thesis
    using fail ok by (simp add: get_terminal_resolution_def)
qed

theorem short_terminal_fails_witness:
  "(snd (get_terminal_resolution (80, 0)) \<le> 2
    \<and> frame_to_ascii_colored (\<lambda>src w h y x. (0, 0, 0)) [[(0, 0, 255)]] 80 (snd (get_terminal_resolution (80, 0))) = Inl Cv2Error
    \<and> frame_to_colored_blocks (\<lambda>src w h y x. (0, 0, 0)) [[(0, 0, 255)]] 80 (snd (get_terminal_resolution (80, 0))) = Inl Cv2Error)
   \<and> (frame_to_colored_blocks (\<lambda>src w h y x. (0, 0, 0)) [[(0, 0, 255)]] 1 3
        = Inr (ESC # ''[38;2;255;0;0m'' @ full_block @ ESC # ''[0m'' @ [newline]) \<and> (3::int) \<le> 3)"
proof -
  have h: "snd (get_terminal_resolution (80, 0)) = 1"
    by (simp add: get_terminal_resolution_def)
  have b: "frame_to_colored_blocks (\<lambda>src w h y x. (0, 0, 0)) [[(0, 0, 255)]] 1 3
        = Inr (ESC # ''[38;2;255;0;0m'' @ full_block @ ESC # ''[0m'' @ [newline])"
    by (simp add: frame_to_colored_blocks_def cv2_resize_def nrows_def ncols_def block_rows_eq
        color_prefix_def str_nat_255 str_nat_0 RESET_ALL_def upt_conv_Cons)
  show ?thesis
    using short_terminal_fails [of "(80, 0)" 1 "\<lambda>src w h y x. (0, 0, 0)" "[[(0, 0, 255)]]" 80]
      short_terminal_fails [of "(80, 0)" 3 "\<lambda>src w h y x. (0, 0, 0)" "[[(0, 0, 255)]]" 1]
      h b by simp
qed

subsection \<open>The playback schedule\<close>








subsection \<open>The playback loop\<close>












subsection \<open>The recording canvas\<close>

lemma canvas_cols_fold:
  "canvas_cols frame gray y xs canvas = Inr (foldl (store_pixel frame y) canvas xs)"
  by (induction xs arbitrary: canvas) (simp_all add: glyph_ok store_pixel_def)

lemma fold_row:
  assumes "y < length canvas" and "k \<le> length (canvas ! y)"
  shows "foldl (store_pixel frame y) canvas [0..<k]
         = canvas[y := map (\<lambda>x. frame ! y ! x) [0..<k] @ drop k (canvas ! y)]"
  using assms(2)
proof (induction k)
  case 0
  then show ?case by simp
next
  case (Suc k)
  let ?row = "map (\<lambda>x. frame ! y ! x) [0..<k] @ drop k (canvas ! y)"
  have k: "k < length (canvas ! y)"
    using Suc.prems by simp
  have tl: "drop k (canvas ! y) = canvas ! y ! k # drop (Suc k) (canvas ! y)"
    using k by (simp add: Cons_nth_drop_Suc)
  have upd: "?row[k := frame ! y ! k]
             = map (\<lambda>x. frame ! y ! x) [0..<Suc k] @ drop (Suc k) (canvas ! y)"
    by (simp add: list_update_append tl)
  have "foldl (store_pixel frame y) canvas [0..<Suc k]
        = store_pixel frame y (canvas[y := ?row]) k"
    using Suc.IH k by simp
  also have "\<dots> = canvas[y := ?row[k := frame ! y ! k]]"
    using assms(1) by (simp add: store_pixel_def)
  finally show ?case
    by (simp only: upd)
qed

lemma canvas_cols_row:
  assumes "y < length canvas" and "length (canvas ! y) = c" and "length (frame ! y) = c"
  shows "canvas_cols frame gray y [0..<c] canvas = Inr (canvas[y := frame ! y])"
proof -
  have "foldl (store_pixel frame y) canvas [0..<c]
        = canvas[y := map (\<lambda>x. frame ! y ! x) [0..<c] @ drop c (canvas ! y)]"
    using assms(1,2) by (intro fold_row) simp_all
  also have "map (\<lambda>x. frame ! y ! x) [0..<c] = frame ! y"
    using assms(3) map_nth [of "frame ! y"] by simp
  finally show ?thesis
    using assms(2) by (simp add: canvas_cols_fold)
qed


lemma canvas_rows_append:
  "canvas_rows frame gray (ys @ zs) canvas =
     (case canvas_rows frame gray ys canvas of
        Inl err \<Rightarrow> Inl err
      | Inr canvas' \<Rightarrow> canvas_rows frame gray zs canvas')"
  by (induction ys arbitrary: canvas) (simp_all split: sum.splits)

lemma canvas_rows_prefix:
  assumes len: "length canvas = length frame"
    and rows: "\<forall>y < length frame. length (canvas ! y) = c \<and> length (frame ! y) = c"
    and gray: "ncols gray = c"
    and "k \<le> length frame"
  shows "canvas_rows frame gray [0..<k] canvas = Inr (take k frame @ drop k canvas)"
  using assms(4)
proof (induction k)
  case 0
  then show ?case by simp
next
  case (Suc k)
  let ?cv = "take k frame @ drop k canvas"
  have k: "k < length frame"
    using Suc.prems by simp
  have kc: "k < length canvas"
    using k len by simp
  have tl: "drop k canvas = canvas ! k # drop (Suc k) canvas"
    using kc by (simp add: Cons_nth_drop_Suc)
  have lk: "length (take k frame) = k"
    using k by simp
  have at_k: "?cv ! k = canvas ! k"
    using lk by (simp add: nth_append tl)
  have in_range: "k < length ?cv"
    using k len by simp
  have row: "canvas_cols frame gray k [0..<c] ?cv = Inr (?cv[k := frame ! k])"
    using in_range rows k by (intro canvas_cols_row) (simp_all add: at_k)
  have upd: "?cv[k := frame ! k] = take (Suc k) frame @ drop (Suc k) canvas"
    using k lk by (simp add: list_update_append tl take_Suc_conv_app_nth)
  have "canvas_rows frame gray [0..<Suc k] canvas = canvas_rows frame gray [k] ?cv"
    using Suc.IH k by (simp add: canvas_rows_append)
  also have "\<dots> = Inr (?cv[k := frame ! k])"
    by (simp add: gray row)
  finally show ?case
    by (simp only: upd)
qed

lemma ascii_canvas_rect:
  assumes "rect frame"
  shows "ascii_canvas frame = Inr frame"
proof -
  have rows: "\<forall>y < length frame. length (zeros_like frame ! y) = ncols frame
                \<and> length (frame ! y) = ncols frame"
    using assms by (simp add: rect_row_length zeros_like_def)
  have "canvas_rows frame (cvtColor_BGR2GRAY frame) [0..<length frame] (zeros_like frame)
        = Inr (take (length frame) frame @ drop (length frame) (zeros_like frame))"
    by (rule canvas_rows_prefix [OF _ rows])
       (simp_all add: zeros_like_def cvtColor_BGR2GRAY_def ncols_map)
  then show ?thesis
    by (simp add: ascii_canvas_def nrows_def cvtColor_BGR2GRAY_def zeros_like_def)
qed

lemma resize_rect:
  assumes "rect src" and "cv2_resize f src w h = Inr resized"
  shows "rect resized"
proof (cases "nat w = ncols src \<and> nat h = nrows src")
  case True
  with assms show ?thesis
    by (auto simp: cv2_resize_def split: if_splits)
next
  case False
  have pos: "1 \<le> w \<and> 1 \<le> h"
    using assms(2) by (rule resize_ok_positive)
  have nonempty: "0 < nrows src \<and> 0 < ncols src"
    using assms(2) by (auto simp: cv2_resize_def split: if_splits)
  have "\<exists>fr. cv2_resize f src w h = Inr fr \<and> rect fr \<and> length fr = nat h
            \<and> list_all (\<lambda>row. length row = nat w) fr"
    using assms(1) pos nonempty by (intro resize_shape) simp_all
  then obtain fr where "cv2_resize f src w h = Inr fr" "rect fr"
    by blast
  with assms(2) show ?thesis
    by simp
qed

lemma collect_frames_mode:
  assumes "\<forall>f. Some f \<in> set (cap w) \<longrightarrow> rect f"
  shows "collect_frames e True tw th idxs acc w = collect_frames e False tw th idxs acc w"
  using assms
proof (induction idxs arbitrary: acc w)
  case Nil
  show ?case by simp
next
  case (Cons i idxs)
  show ?case
  proof (cases "cap w")
    case Nil
    then show ?thesis by (simp add: cap_read_def)
  next
    case (Cons r rest)
    note capw = Cons
    show ?thesis
    proof (cases r)
      case None
      with capw show ?thesis by (simp add: cap_read_def)
    next
      case (Some f)
      have rd: "cap_read w = (Some f, w\<lparr>cap := rest\<rparr>)"
        using capw Some by (simp add: cap_read_def)
      have rf: "rect f"
        using Cons.prems capw Some by simp
      have rest: "\<forall>g. Some g \<in> set (cap (w\<lparr>cap := rest\<rparr>)) \<longrightarrow> rect g"
        using Cons.prems capw by simp
      show ?thesis
      proof (cases "cv2_resize (interpolate e) f tw (th - 2)")
        case (Inl err)
        then show ?thesis by (simp add: rd)
      next
        case (Inr resized)
        have "rect resized"
          using rf Inr by (rule resize_rect)
        then have "ascii_canvas resized = Inr resized"
          by (rule ascii_canvas_rect)
        then show ?thesis
          using Inr Cons.IH [OF rest] by (simp add: rd)
      qed
    qed
  qed
qed

lemma save_mode:
  assumes "\<forall>f. Some f \<in> set (video e) \<longrightarrow> rect f"
  shows "save_as_video e original_path True w = save_as_video e original_path False w"
proof -
  have c: "collect_frames e True tw th idxs [] (cv2_VideoCapture e original_path w1)
         = collect_frames e False tw th idxs [] (cv2_VideoCapture e original_path w1)"
    for tw th idxs w1
    using assms by (intro collect_frames_mode) (simp add: cv2_VideoCapture_def emit_def)
  show ?thesis
    by (simp add: save_as_video_def Let_def get_terminal_resolution_def c
        split: option.splits)
qed

text \<open>
  C10. In the save step the canvas that the ASCII branch builds for a (rectangular) resized
  frame is that frame, pixel for pixel: the ramp character looked up for each cell is not
  used. So, for a video whose frames are rectangular arrays, the whole save step (the
  images written, their names, the processes run, the result) is the same in ASCII mode
  and in block mode.
\<close>

theorem saved_frames_ignore_mode:
  assumes "rect frame" and "\<forall>f. Some f \<in> set (video e) \<longrightarrow> rect f"
  shows "ascii_canvas frame = Inr frame
     \<and> save_as_video e original_path True w = save_as_video e original_path False w"
  using ascii_canvas_rect [OF assms(1)] save_mode [OF assms(2)] by simp

theorem saved_frames_ignore_mode_witness:
  "ascii_canvas [[(1, 2, 3), (4, 5, 6)]] = Inr [[(1, 2, 3), (4, 5, 6)]]
   \<and> save_as_video save_env ''clip.mp4'' True empty_world
       = save_as_video save_env ''clip.mp4'' False empty_world"
proof -
  have r: "rect [[(1, 2, 3), (4, 5, 6)] :: pixel list]"
    by (simp add: rect_def ncols_def)
  have v: "\<forall>f. Some f \<in> set (video save_env) \<longrightarrow> rect f"
    by (simp add: save_env_def demo_env_def red_frame_def black_frame_def rect_def ncols_def)
  from saved_frames_ignore_mode [OF r v] show ?thesis .
qed

subsection \<open>The save step\<close>

lemma choice_n: "py_lower (py_strip ''n'') = ''n''"
  by code_simp

lemma choice_Y: "py_lower (py_strip '' Y '') = ''y''"
  by code_simp

text \<open>
  C8. When the answer to the prompt, stripped and lowercased, is not \<open>y\<close>, the save step
  returns at once: the only thing it has done is to print the prompt. The files and
  directories are unchanged, no capture is opened, no image is written and no process is
  run.
\<close>

theorem decline_is_noop:
  assumes "stdin e = Some line" and "py_lower (py_strip line) \<noteq> ''y''"
  shows "save_as_video e original_path use_ascii w = (None, w\<lparr>trace := trace w @ [Print save_prompt]\<rparr>)"
  using assms by (simp add: save_as_video_def emit_def)

theorem decline_is_noop_witness:
  "save_as_video demo_env ''clip.mp4'' True empty_world
     = (None, empty_world\<lparr>trace := trace empty_world @ [Print save_prompt]\<rparr>)"
proof -
  have "stdin demo_env = Some ''n''"
    by (simp add: demo_env_def)
  moreover have "py_lower (py_strip ''n'') \<noteq> ''y''"
    by (simp add: choice_n)
  ultimately show ?thesis
    by (rule decline_is_noop)
qed

text \<open>
  C3 (as amended). In lines 140 to 156, when the call that runs the encoder returns, whatever
  the encoder's exit status, the temporary directory (which line 134 has created) is
  removed with the images under it and the temporary audio file is gone, when the step
  returns normally and also when \<^verbatim>\<open>os.remove\<close> raises because the audio file was
  never written.
\<close>

theorem cleanup_after_encoder_returns:
  assumes "mux_result e = Ran written" and "temp_frames_dir \<in> dirs w"
  shows "temp_frames_dir \<notin> dirs (snd (encode_and_cleanup e fps_text temp_frames_dir temp_audio output_path w))
     \<and> (\<forall>p \<in> files (snd (encode_and_cleanup e fps_text temp_frames_dir temp_audio output_path w)).
           \<not> under temp_frames_dir p)
     \<and> temp_audio \<notin> files (snd (encode_and_cleanup e fps_text temp_frames_dir temp_audio output_path w))
     \<and> (fst (encode_and_cleanup e fps_text temp_frames_dir temp_audio output_path w) = None
        \<or> fst (encode_and_cleanup e fps_text temp_frames_dir temp_audio output_path w) = Some FileNotFoundError)"
  using assms
  by (auto simp: encode_and_cleanup_def run_mux_def shutil_rmtree_def os_remove_def emit_def Let_def
      split: if_splits)


lemma canvas_red: "ascii_canvas red_frame = Inr red_frame"
  by (rule ascii_canvas_rect) (simp add: rect_def red_frame_def ncols_def)

lemma zfill4_0: "zfill4 0 = ''0000''"
  by code_simp

lemma yes_env_simps:
  "stdin yes_env = Some '' Y ''" "mux_result yes_env = Raised KeyboardInterrupt"
  "extract_result yes_env = Ran True" "terminal_size yes_env = (1, 3)"
  "cap_frame_count yes_env = 3" "video yes_env = [Some red_frame, None, Some black_frame]"
  "cap_fps yes_env = Fin 30" "interpolate yes_env = (\<lambda>src w h y x. (0, 0, 0))"
  by (simp_all add: yes_env_def save_env_def demo_env_def)

lemma resize_red: "cv2_resize f red_frame 1 1 = Inr red_frame"
  by (simp add: cv2_resize_def red_frame_def nrows_def ncols_def)

lemma save_interrupted:
  "save_as_video yes_env ''clip.mp4'' True empty_world =
     (Some KeyboardInterrupt,
      \<lparr>files = {''temp_audio_output.aac'', ''tempframes/frame0000.png''},
       dirs = {''tempframes''}, cap = [], ticks = 0,
       trace = [Print save_prompt, VideoCapture ''clip.mp4'', Release, Makedirs ''tempframes'',
                Imwrite ''tempframes/frame0000.png'' red_frame,
                Run [''ffmpeg'', ''-y'', ''-i'', ''clip.mp4'', ''-vn'', ''-acodec'', ''aac'',
                     ''-filter:a'', ''volume=0.5'', ''temp_audio_output.aac''],
                Run [''ffmpeg'', ''-y'', ''-r'', str_float yes_env (Fin 30),
                     ''-i'', ''tempframes/frame%04d.png'', ''-i'', ''temp_audio_output.aac'',
                     ''-vf'', ''pad=ceil(iw/2)*2:ceil(ih/2)*2'', ''-c:v'', ''libx264'',
                     ''-pix_fmt'', ''yuv420p'', ''-c:a'', ''aac'',
                     ''-movflags'', ''+faststart'', ''-shortest'', ''terminal+clip.mp4'']]\<rparr>)"
proof -
  have idx: "[0..<nat 3] = [0, 1, 2]"
    by (simp add: upt_conv_Cons)
  have names: "basename ''clip.mp4'' = ''clip.mp4''" "dirname ''clip.mp4'' = []"
    by code_simp+
  show ?thesis
    unfolding save_as_video_def yes_env_simps idx names
    by (simp add: Let_def choice_Y get_terminal_resolution_def cv2_VideoCapture_def emit_def yes_env_simps
        cap_read_def resize_red canvas_red cap_release_def os_makedirs_def cv2_imwrite_def
        zfill4_0 extract_audio_def encode_and_cleanup_def run_mux_def path_join_def
        float_le_zero_def np_isnan_def empty_world_def)
qed

text \<open>
  C3, as the specification states it, fails when the call that runs the encoder raises (here
  an interrupt during the encoding): no handler or \<^verbatim>\<open>finally\<close> surrounds it, the
  exception leaves \<^verbatim>\<open>save_as_video\<close>, and the temporary directory, its image and
  the temporary audio file are still there.
\<close>

theorem encoder_interrupt_leaves_files:
  "mux_result yes_env = Raised KeyboardInterrupt
   \<and> fst (save_as_video yes_env ''clip.mp4'' True empty_world) = Some KeyboardInterrupt
   \<and> ''tempframes'' \<in> dirs (snd (save_as_video yes_env ''clip.mp4'' True empty_world))
   \<and> ''tempframes/frame0000.png'' \<in> files (snd (save_as_video yes_env ''clip.mp4'' True empty_world))
   \<and> ''temp_audio_output.aac'' \<in> files (snd (save_as_video yes_env ''clip.mp4'' True empty_world))"
  unfolding save_interrupted by (simp add: yes_env_simps)

theorem cleanup_after_encoder_returns_witness:
  "''tempframes'' \<notin> dirs (snd (encode_and_cleanup demo_env ''30'' ''tempframes''
        ''temp_audio_output.aac'' ''terminal+clip.mp4''
        (empty_world\<lparr>files := {''tempframes/frame0000.png'', ''temp_audio_output.aac''},
                      dirs := {''tempframes''}\<rparr>)))
   \<and> ''tempframes/frame0000.png'' \<notin> files (snd (encode_and_cleanup demo_env ''30'' ''tempframes''
        ''temp_audio_output.aac'' ''terminal+clip.mp4''
        (empty_world\<lparr>files := {''tempframes/frame0000.png'', ''temp_audio_output.aac''},
                      dirs := {''tempframes''}\<rparr>)))
   \<and> ''temp_audio_output.aac'' \<notin> files (snd (encode_and_cleanup demo_env ''30'' ''tempframes''
        ''temp_audio_output.aac'' ''terminal+clip.mp4''
        (empty_world\<lparr>files := {''tempframes/frame0000.png'', ''temp_audio_output.aac''},
                      dirs := {''tempframes''}\<rparr>)))"
proof -
  let ?w = "empty_world\<lparr>files := {''tempframes/frame0000.png'', ''temp_audio_output.aac''},
                      dirs := {''tempframes''}\<rparr>"
  let ?R = "encode_and_cleanup demo_env ''30'' ''tempframes'' ''temp_audio_output.aac''
              ''terminal+clip.mp4'' ?w"
  have m: "mux_result demo_env = Ran True"
    by (simp add: demo_env_def)
  have d: "''tempframes'' \<in> dirs ?w"
    by (simp add: empty_world_def)
  have u: "under ''tempframes'' ''tempframes/frame0000.png''"
    by (simp add: under_def)
  note c = cleanup_after_encoder_returns [OF m d, of "''30''" "''temp_audio_output.aac''"
      "''terminal+clip.mp4''"]
  have c1: "''tempframes'' \<notin> dirs (snd ?R)"
    by (rule c [THEN conjunct1])
  have c2: "\<forall>p \<in> files (snd ?R). \<not> under ''tempframes'' p"
    by (rule c [THEN conjunct2, THEN conjunct1])
  have c3: "''temp_audio_output.aac'' \<notin> files (snd ?R)"
    by (rule c [THEN conjunct2, THEN conjunct2, THEN conjunct1])
  have c4: "''tempframes/frame0000.png'' \<notin> files (snd ?R)"
  proof
    assume "''tempframes/frame0000.png'' \<in> files (snd ?R)"
    with c2 have "\<not> under ''tempframes'' ''tempframes/frame0000.png''"
      by (rule bspec)
    with u show False by simp
  qed
  from c1 c4 c3 show ?thesis
    by (intro conjI)
qed

end
